theory Spec2Isabelle
  imports Main "HOL-Library.AList"
begin

section \<open>The Firebolt source connector: \<open>source_firebolt/source.py\<close>\<close>

text \<open>
  The connector talks to a remote store through a database driver. The driver, the helpers
  of \<open>database.py\<close> (\<open>establish_connection\<close>, \<open>establish_async_connection\<close>,
  \<open>get_firebolt_tables\<close>) and of \<open>utils.py\<close> (\<open>convert_type\<close>,
  \<open>airbyte_message_from_data\<close>) are parameters of the model: an environment record holds
  what each of them answers. Everything that \<open>source.py\<close> does itself (the order of the
  calls, the handles it opens and closes, the statements it builds, the values it returns
  or the exception it lets through) is written out.

  Effects are recorded as a trace of driver calls, in program order; a raised exception is
  the \<open>Inl\<close> of a sum. Calls to the logger change nothing that is observed here and are
  left out.
\<close>

subsection \<open>Exceptions and driver answers\<close>

text \<open>
  An exception of class \<open>Exception\<close> (what the driver and the helpers raise, and what
  \<open>except Exception\<close> catches), carrying the text that \<open>str(e)\<close> gives.
\<close>

datatype error = Exception string

fun str :: "error \<Rightarrow> string" where
  "str (Exception m) = m"

text \<open>
  What the store answers to one statement run on a cursor: \<open>cursor.execute\<close> raises, or
  it succeeds and \<open>cursor.fetchall\<close> raises, or \<open>fetchall\<close> hands over the rows of the
  result set.
\<close>

datatype 'r outcome = ExecuteRaises error | FetchallRaises error | Rows "'r list"

text \<open>
  Driver calls. Connections and cursors are handles, numbered: \<open>CursorOpen k c\<close> is
  \<open>connection.cursor()\<close> on connection \<open>k\<close> returning cursor \<open>c\<close>; \<open>Execute c q\<close> is the
  call \<open>cursor.execute(q)\<close>; \<open>Fetchall c n\<close> is a call of \<open>cursor.fetchall()\<close> that
  returned a list of \<open>n\<close> rows.
\<close>

datatype db_event =
    ConnOpen nat
  | ConnClose nat
  | CursorOpen nat nat
  | CursorClose nat
  | Execute nat string
  | Fetchall nat nat

subsection \<open>Catalog data\<close>

datatype sync_mode = full_refresh | incremental

text \<open>
  The schema dictionary \<open>{"type": ..., "properties": ...}\<close>. The properties are a
  dictionary from column name to type, kept as an association list in insertion order;
  \<open>None\<close> is a schema dictionary without the key \<open>properties\<close>.
\<close>

record 'ty json_schema =
  schema_type :: string
  properties :: "(string \<times> 'ty) list option"

record 'ty airbyte_stream =
  name :: string
  json_schema :: "'ty json_schema"
  supported_sync_modes :: "sync_mode list"

record 'ty airbyte_catalog =
  streams :: "'ty airbyte_stream list"

definition SUPPORTED_SYNC_MODES :: "sync_mode list" where
  "SUPPORTED_SYNC_MODES = [full_refresh]"

subsection \<open>Discovery\<close>

text \<open>A row of \<open>SHOW COLUMNS\<close>: \<open>(t_name, c_name, c_type, nullable)\<close>.\<close>

type_synonym column_row = "string \<times> string \<times> string \<times> bool"

definition c_name_of :: "column_row \<Rightarrow> string" where
  "c_name_of r = fst (snd r)"

record ('cfg, 'ty) async_env =
  establish_async_connection :: "'cfg \<Rightarrow> error + nat"
  get_firebolt_tables :: "nat \<Rightarrow> error + string list"
  show_columns :: "string \<Rightarrow> column_row outcome"
  convert_type :: "string \<Rightarrow> bool \<Rightarrow> 'ty"

text \<open>
  The loop of \<open>get_table_stream\<close> over the fetched rows. \<open>column_mapping[c_name] = t\<close> on
  a Python dictionary replaces the value of a key that is present, in place, and appends a
  new key at the end: \<open>AList.update\<close>.
\<close>

fun column_loop ::
  "(string \<Rightarrow> bool \<Rightarrow> 'ty) \<Rightarrow> column_row list \<Rightarrow> (string \<times> 'ty) list \<Rightarrow> (string \<times> 'ty) list"
where
  "column_loop conv [] column_mapping = column_mapping"
| "column_loop conv ((t_name, c_name, c_type, nullable) # rest) column_mapping =
     column_loop conv rest (AList.update c_name (conv c_type nullable) column_mapping)"

text \<open>
  \<open>get_table_stream(connection, table)\<close>. The argument \<open>cursor\<close> is the handle that
  \<open>connection.cursor()\<close> returns in this call. There is no \<open>try\<close> around the body: when
  \<open>execute\<close> or \<open>fetchall\<close> raises, the exception leaves the function at once.
\<close>

definition get_table_stream ::
  "('cfg, 'ty) async_env \<Rightarrow> nat \<Rightarrow> nat \<Rightarrow> string \<Rightarrow> db_event list \<times> (error + 'ty airbyte_stream)"
where
  "get_table_stream env connection cursor table =
     (let statement = ''SHOW COLUMNS '' @ table in
      case show_columns env statement of
        ExecuteRaises e \<Rightarrow>
          ([CursorOpen connection cursor, Execute cursor statement], Inl e)
      | FetchallRaises e \<Rightarrow>
          ([CursorOpen connection cursor, Execute cursor statement], Inl e)
      | Rows rows \<Rightarrow>
          (let column_mapping = column_loop (convert_type env) rows [] in
           ([CursorOpen connection cursor, Execute cursor statement,
             Fetchall cursor (length rows), CursorClose cursor],
            Inr \<lparr>name = table,
                 json_schema = \<lparr>schema_type = ''object'', properties = Some column_mapping\<rparr>,
                 supported_sync_modes = SUPPORTED_SYNC_MODES\<rparr>)))"

text \<open>
  \<open>asyncio.gather\<close> of the tasks: the results in the order of the tasks when every task
  returns, the exception of a task that raised otherwise. The tasks wait for the store
  concurrently; the store's answers do not depend on the interleaving, so the model lists
  each task's calls in task order and, of several exceptions, lets the first in task order
  through.
\<close>

fun gather :: "('e list \<times> (error + 'a)) list \<Rightarrow> 'e list \<times> (error + 'a list)" where
  "gather [] = ([], Inr [])"
| "gather ((tr, r) # tasks) =
     (case gather tasks of
        (tr', rs) \<Rightarrow>
          (tr @ tr',
           case r of
             Inl e \<Rightarrow> Inl e
           | Inr a \<Rightarrow> (case rs of Inl e \<Rightarrow> Inl e | Inr as \<Rightarrow> Inr (a # as))))"

text \<open>
  The inner coroutine \<open>get_streams\<close> of \<open>discover\<close>: one connection, held by
  \<open>async with\<close> and so closed on every exit; the same \<open>connection\<close> is passed to every
  task. The \<open>i\<close>-th task's cursor is handle \<open>i\<close>.
\<close>

definition get_streams ::
  "('cfg, 'ty) async_env \<Rightarrow> 'cfg \<Rightarrow> db_event list \<times> (error + 'ty airbyte_stream list)"
where
  "get_streams env config =
     (case establish_async_connection env config of
        Inl e \<Rightarrow> ([], Inl e)
      | Inr connection \<Rightarrow>
          (case get_firebolt_tables env connection of
             Inl e \<Rightarrow> ([ConnOpen connection, ConnClose connection], Inl e)
           | Inr tables \<Rightarrow>
               (case gather (map (\<lambda>(i, table). get_table_stream env connection i table)
                                 (enumerate 0 tables)) of
                  (tr, r) \<Rightarrow> ([ConnOpen connection] @ tr @ [ConnClose connection], r))))"

definition discover ::
  "('cfg, 'ty) async_env \<Rightarrow> 'cfg \<Rightarrow> db_event list \<times> (error + 'ty airbyte_catalog)"
where
  "discover env config =
     (case get_streams env config of
        (tr, Inl e) \<Rightarrow> (tr, Inl e)
      | (tr, Inr streams') \<Rightarrow> (tr, Inr \<lparr>streams = streams'\<rparr>))"

subsection \<open>Connection check and extraction\<close>

text \<open>
  The blocking driver and the helpers used by \<open>check\<close> and \<open>read\<close>. A raw row is
  of any type \<open>'r\<close>, a record message of any type \<open>'m\<close>;
  \<open>airbyte_message_from_data\<close> returns a message, or \<open>None\<close>, or raises.
\<close>

record ('cfg, 'r, 'm) sync_env =
  establish_connection :: "'cfg \<Rightarrow> error + nat"
  run :: "string \<Rightarrow> 'r outcome"
  airbyte_message_from_data :: "'r \<Rightarrow> string list \<Rightarrow> string \<Rightarrow> error + 'm option"

datatype status = SUCCEEDED | FAILED

record airbyte_connection_status =
  status :: status
  message :: "string option"

text \<open>
  The body of the \<open>try\<close> in \<open>check\<close>. Both handles are held by \<open>with\<close>, so they are
  closed whether \<open>execute\<close> returns or raises. Nothing is fetched.
\<close>

definition check_try ::
  "('cfg, 'r, 'm) sync_env \<Rightarrow> 'cfg \<Rightarrow> db_event list \<times> (error + airbyte_connection_status)"
where
  "check_try env config =
     (case establish_connection env config of
        Inl e \<Rightarrow> ([], Inl e)
      | Inr connection \<Rightarrow>
          (let tr = [ConnOpen connection, CursorOpen connection 0, Execute 0 ''SELECT 1'',
                     CursorClose 0, ConnClose connection] in
           case run env ''SELECT 1'' of
             ExecuteRaises e \<Rightarrow> (tr, Inl e)
           | FetchallRaises e \<Rightarrow> (tr, Inr \<lparr>status = SUCCEEDED, message = None\<rparr>)
           | Rows rows \<Rightarrow> (tr, Inr \<lparr>status = SUCCEEDED, message = None\<rparr>)))"

text \<open>\<open>check\<close>: the \<open>try\<close> with its handler \<open>except Exception as e\<close>.\<close>

definition check ::
  "('cfg, 'r, 'm) sync_env \<Rightarrow> 'cfg \<Rightarrow> db_event list \<times> (error + airbyte_connection_status)"
where
  "check env config =
     (case check_try env config of
        (tr, Inl e) \<Rightarrow>
          (tr, Inr \<lparr>status = FAILED, message = Some (''An exception occurred: '' @ str e)\<rparr>)
      | (tr, Inr result) \<Rightarrow> (tr, Inr result))"

text \<open>The input of \<open>read\<close>: a \<open>ConfiguredAirbyteCatalog\<close> and its streams.\<close>

record 'ty configured_airbyte_stream =
  stream :: "'ty airbyte_stream"
  sync_mode :: sync_mode

record 'ty configured_airbyte_catalog =
  configured_streams :: "'ty configured_airbyte_stream list"

text \<open>What \<open>read\<close> does, in order: driver calls, calls of the normalizer, yields.\<close>

datatype ('r, 'm) read_event = Db db_event | Normalize 'r | Yield 'm

text \<open>Python's \<open>sep.join(xs)\<close>.\<close>

fun join :: "string \<Rightarrow> string list \<Rightarrow> string" where
  "join sep [] = []"
| "join sep [x] = x"
| "join sep (x # y # ys) = x @ sep @ join sep (y # ys)"

definition dquote :: char where
  "dquote = CHR 0x22"

text \<open>The statement built for one table: lines 137 and 139 of \<open>read\<close>.\<close>

definition select_query :: "string list \<Rightarrow> string \<Rightarrow> string" where
  "select_query columns table_name =
     (let escaped_columns = map (\<lambda>col. [dquote] @ col @ [dquote]) columns in
      ''SELECT '' @ join '','' escaped_columns @ '' FROM '' @ table_name)"

text \<open>
  The inner loop \<open>for result in cursor.fetchall()\<close>, over the list that \<open>fetchall\<close>
  returned. The result is the exception that ended the loop, if any.
\<close>

fun emit_rows ::
  "('cfg, 'r, 'm) sync_env \<Rightarrow> string list \<Rightarrow> string \<Rightarrow> 'r list
     \<Rightarrow> ('r, 'm) read_event list \<times> error option"
where
  "emit_rows env columns table_name [] = ([], None)"
| "emit_rows env columns table_name (result # rest) =
     (case airbyte_message_from_data env result columns table_name of
        Inl e \<Rightarrow> ([Normalize result], Some e)
      | Inr msg \<Rightarrow>
          (case emit_rows env columns table_name rest of
             (tr, r) \<Rightarrow>
               (Normalize result # (case msg of None \<Rightarrow> [] | Some m \<Rightarrow> [Yield m]) @ tr, r)))"

text \<open>
  The body of \<open>for c_stream in catalog.streams\<close>, run on the cursor \<open>cursor\<close>. The
  subscript \<open>json_schema["properties"]\<close> raises \<open>KeyError\<close>, naming the key, when the key is missing.
\<close>

definition read_stream ::
  "('cfg, 'r, 'm) sync_env \<Rightarrow> nat \<Rightarrow> 'ty configured_airbyte_stream
     \<Rightarrow> ('r, 'm) read_event list \<times> error option"
where
  "read_stream env cursor c_stream =
     (let table_name = name (stream c_stream) in
      case properties (json_schema (stream c_stream)) of
        None \<Rightarrow> ([], Some (Exception ''properties''))
      | Some table_properties \<Rightarrow>
          (let columns = map fst table_properties;
               query = select_query columns table_name in
           case run env query of
             ExecuteRaises e \<Rightarrow> ([Db (Execute cursor query)], Some e)
           | FetchallRaises e \<Rightarrow> ([Db (Execute cursor query)], Some e)
           | Rows rows \<Rightarrow>
               (case emit_rows env columns table_name rows of
                  (tr, r) \<Rightarrow>
                    (Db (Execute cursor query) # Db (Fetchall cursor (length rows)) # tr, r))))"

text \<open>The outer loop: the first exception ends it.\<close>

fun read_streams ::
  "('cfg, 'r, 'm) sync_env \<Rightarrow> nat \<Rightarrow> 'ty configured_airbyte_stream list
     \<Rightarrow> ('r, 'm) read_event list \<times> error option"
where
  "read_streams env cursor [] = ([], None)"
| "read_streams env cursor (c_stream # rest) =
     (case read_stream env cursor c_stream of
        (tr, Some e) \<Rightarrow> (tr, Some e)
      | (tr, None) \<Rightarrow>
          (case read_streams env cursor rest of (tr', r) \<Rightarrow> (tr @ tr', r)))"

text \<open>
  \<open>read\<close>, consumed to its end: the trace of the generator and the exception that ended
  it, if any. The connection and one cursor are opened by the two \<open>with\<close> statements
  around the loop and closed when the loop is left, normally or by an exception. The
  argument \<open>state\<close> is a dictionary.
\<close>

definition read ::
  "('cfg, 'r, 'm) sync_env \<Rightarrow> 'cfg \<Rightarrow> 'ty configured_airbyte_catalog \<Rightarrow> (string \<rightharpoonup> 'st)
     \<Rightarrow> ('r, 'm) read_event list \<times> error option"
where
  "read env config catalog state =
     (case establish_connection env config of
        Inl e \<Rightarrow> ([], Some e)
      | Inr connection \<Rightarrow>
          (case read_streams env 0 (configured_streams catalog) of
             (tr, r) \<Rightarrow>
               (Db (ConnOpen connection) # Db (CursorOpen connection 0) # tr
                  @ [Db (CursorClose 0), Db (ConnClose connection)], r)))"

subsection \<open>Reading a trace\<close>

text \<open>The cursors opened in a trace, each with the connection it was opened on.\<close>

fun cursor_opens :: "db_event list \<Rightarrow> (nat \<times> nat) list" where
  "cursor_opens [] = []"
| "cursor_opens (CursorOpen k c # tr) = (k, c) # cursor_opens tr"
| "cursor_opens (ev # tr) = cursor_opens tr"

text \<open>The connections opened in a trace.\<close>

fun conn_opens :: "db_event list \<Rightarrow> nat list" where
  "conn_opens [] = []"
| "conn_opens (ConnOpen k # tr) = k # conn_opens tr"
| "conn_opens (ev # tr) = conn_opens tr"

subsection \<open>Example stores\<close>

text \<open>
  A store with the tables \<open>users(id integer not null, name string nullable)\<close> and
  \<open>orders(id integer not null)\<close>; \<open>convert_type\<close> is taken to pair the native type with
  the nullability.
\<close>

definition example_async_env :: "(unit, string \<times> bool) async_env" where
  "example_async_env =
     \<lparr>establish_async_connection = (\<lambda>config. Inr 7),
      get_firebolt_tables = (\<lambda>connection. Inr [''users'', ''orders'']),
      show_columns = (\<lambda>statement.
        if statement = ''SHOW COLUMNS users''
        then Rows [(''users'', ''id'', ''integer'', False), (''users'', ''name'', ''string'', True)]
        else if statement = ''SHOW COLUMNS orders''
        then Rows [(''orders'', ''id'', ''integer'', False)]
        else ExecuteRaises (Exception ''no such table'')),
      convert_type = (\<lambda>c_type nullable. (c_type, nullable))\<rparr>"

text \<open>The same store, where the column query of \<open>orders\<close> raises.\<close>

definition orders_fails_env :: "(unit, string \<times> bool) async_env" where
  "orders_fails_env =
     example_async_env\<lparr>show_columns := (\<lambda>statement.
        if statement = ''SHOW COLUMNS users''
        then Rows [(''users'', ''id'', ''integer'', False), (''users'', ''name'', ''string'', True)]
        else ExecuteRaises (Exception ''query failed''))\<rparr>"

text \<open>The streams that discovery builds for the two tables, and their catalog.\<close>

definition users_stream :: "(string \<times> bool) airbyte_stream" where
  "users_stream =
     \<lparr>name = ''users'',
      json_schema = \<lparr>schema_type = ''object'',
        properties = Some [(''id'', (''integer'', False)), (''name'', (''string'', True))]\<rparr>,
      supported_sync_modes = [full_refresh]\<rparr>"

definition orders_stream :: "(string \<times> bool) airbyte_stream" where
  "orders_stream =
     \<lparr>name = ''orders'',
      json_schema = \<lparr>schema_type = ''object'',
        properties = Some [(''id'', (''integer'', False))]\<rparr>,
      supported_sync_modes = [full_refresh]\<rparr>"

definition example_catalog :: "(string \<times> bool) airbyte_catalog" where
  "example_catalog = \<lparr>streams = [users_stream, orders_stream]\<rparr>"

subsection \<open>Reading the trace of \<open>read\<close>\<close>

text \<open>The driver calls among the events of \<open>read\<close>.\<close>

fun db_events :: "('r, 'm) read_event list \<Rightarrow> db_event list" where
  "db_events [] = []"
| "db_events (Db ev # tr) = ev # db_events tr"
| "db_events (ev # tr) = db_events tr"

text \<open>The statements passed to \<open>cursor.execute\<close>, in order.\<close>

fun executed :: "db_event list \<Rightarrow> string list" where
  "executed [] = []"
| "executed (Execute c q # tr) = q # executed tr"
| "executed (ev # tr) = executed tr"

text \<open>
  The number of rows that \<open>fetchall\<close> has handed over when the first message is yielded
  (all rows fetched, when nothing is yielded).
\<close>

fun fetched_before_first_yield :: "('r, 'm) read_event list \<Rightarrow> nat" where
  "fetched_before_first_yield [] = 0"
| "fetched_before_first_yield (Yield m # tr) = 0"
| "fetched_before_first_yield (Db (Fetchall c n) # tr) = n + fetched_before_first_yield tr"
| "fetched_before_first_yield (ev # tr) = fetched_before_first_yield tr"

text \<open>
  The events of one row taken alone: the call of the normalizer, then the yield of its
  message when it returned one.
\<close>

definition row_events ::
  "('cfg, 'r, 'm) sync_env \<Rightarrow> string list \<Rightarrow> string \<Rightarrow> 'r \<Rightarrow> ('r, 'm) read_event list"
where
  "row_events env columns table_name result =
     Normalize result #
       (case airbyte_message_from_data env result columns table_name of
          Inr (Some m) \<Rightarrow> [Yield m]
        | _ \<Rightarrow> [])"

text \<open>
  Events that leave the set of open handles as it is and, when they are driver calls, are
  calls on cursor \<open>c\<close>.
\<close>

fun uses_cursor :: "nat \<Rightarrow> ('r, 'm) read_event \<Rightarrow> bool" where
  "uses_cursor c (Db (Execute c' q)) = (c' = c)"
| "uses_cursor c (Db (Fetchall c' n)) = (c' = c)"
| "uses_cursor c (Db ev) = False"
| "uses_cursor c (Normalize r) = True"
| "uses_cursor c (Yield m) = True"

text \<open>
  The largest number of cursors open at one time along a trace that starts with \<open>n\<close>
  cursors open.
\<close>

fun peak_open :: "nat \<Rightarrow> db_event list \<Rightarrow> nat" where
  "peak_open n [] = n"
| "peak_open n (CursorOpen k c # tr) = max n (peak_open (Suc n) tr)"
| "peak_open n (CursorClose c # tr) = max n (peak_open (n - 1) tr)"
| "peak_open n (ev # tr) = peak_open n tr"

subsection \<open>Example store, blocking side\<close>

text \<open>
  The blocking side of the example store. Raw rows are lists of cell texts; the normalizer
  is taken to pair the table name with the row zipped to its columns, and to return
  \<open>None\<close> for an empty row.
\<close>

definition example_sync_env :: "(unit, string list, string \<times> (string \<times> string) list) sync_env" where
  \<open>example_sync_env =
     \<lparr>establish_connection = (\<lambda>config. Inr 5),
      run = (\<lambda>query.
        if query = ''SELECT 1'' then Rows [[''1'']]
        else if query = ''SELECT "id","name" FROM users''
        then Rows [[''1'', ''a''], [''2'', ''null'']]
        else if query = ''SELECT "id" FROM orders''
        then Rows [[''10'']]
        else ExecuteRaises (Exception ''syntax error'')),
      airbyte_message_from_data = (\<lambda>result columns table_name.
        if result = [] then Inr None else Inr (Some (table_name, zip columns result)))\<rparr>\<close>

text \<open>The same store, reached with credentials it refuses.\<close>

definition bad_credentials_env :: "(unit, string list, string \<times> (string \<times> string) list) sync_env" where
  "bad_credentials_env =
     example_sync_env\<lparr>establish_connection := (\<lambda>config. Inl (Exception ''invalid credentials''))\<rparr>"

text \<open>Selections: both discovered tables, and \<open>users\<close> alone.\<close>

definition example_selection :: "(string \<times> bool) configured_airbyte_catalog" where
  "example_selection =
     \<lparr>configured_streams =
        map (\<lambda>s. \<lparr>stream = s, sync_mode = full_refresh\<rparr>) (streams example_catalog)\<rparr>"

definition users_c_stream :: "(string \<times> bool) configured_airbyte_stream" where
  "users_c_stream = \<lparr>stream = users_stream, sync_mode = full_refresh\<rparr>"

definition users_selection :: "(string \<times> bool) configured_airbyte_catalog" where
  "users_selection = \<lparr>configured_streams = [users_c_stream]\<rparr>"

text \<open>The same store, where every statement raises at \<open>execute\<close>.\<close>

definition select_fails_env :: "(unit, string list, string \<times> (string \<times> string) list) sync_env" where
  "select_fails_env =
     example_sync_env\<lparr>run := (\<lambda>query. ExecuteRaises (Exception ''engine is stopped''))\<rparr>"

text \<open>The same store, with a normalizer that raises on the second row of \<open>users\<close>.\<close>

definition normalizer_fails_env :: "(unit, string list, string \<times> (string \<times> string) list) sync_env" where
  "normalizer_fails_env =
     example_sync_env\<lparr>airbyte_message_from_data := (\<lambda>result columns table_name.
        if result = [''2'', ''null''] then Inl (Exception ''unexpected value'')
        else Inr (Some (table_name, zip columns result)))\<rparr>"

text \<open>A configured stream whose schema dictionary has no key \<open>properties\<close>.\<close>

definition no_properties_c_stream :: "(string \<times> bool) configured_airbyte_stream" where
  "no_properties_c_stream =
     \<lparr>stream = \<lparr>name = ''users'',
                 json_schema = \<lparr>schema_type = ''object'', properties = None\<rparr>,
                 supported_sync_modes = [full_refresh]\<rparr>,
      sync_mode = full_refresh\<rparr>"

section \<open>Properties\<close>

subsection \<open>Auxiliary facts\<close>

lemma gather_fst: "fst (gather tasks) = concat (map fst tasks)"
  by (induction tasks) (auto split: prod.splits)

lemma gather_Inr_iff: "snd (gather tasks) = Inr rs \<longleftrightarrow> map snd tasks = map Inr rs"
proof (induction tasks arbitrary: rs)
  case Nil
  then show ?case by auto
next
  case (Cons t tasks)
  obtain tr r where t: "t = (tr, r)" by (cases t)
  obtain tr' rs' where g: "gather tasks = (tr', rs')" by (cases "gather tasks")
  show ?case
  proof (cases r)
    case (Inl e)
    then show ?thesis using t g by (cases rs) auto
  next
    case (Inr a)
    show ?thesis
    proof (cases rs')
      case (Inl e)
      with Cons.IH g have "\<And>as. map snd tasks \<noteq> map Inr as" by auto
      then show ?thesis using t g Inr Inl by (cases rs) auto
    next
      case inr: (Inr as)
      with Cons.IH [of as] g have "map snd tasks = map Inr as" by simp
      then show ?thesis using t g Inr inr by (cases rs) auto
    qed
  qed
qed

lemma gather_Inl_iff: "(\<exists>e. snd (gather tasks) = Inl e) \<longleftrightarrow> (\<exists>t\<in>set tasks. \<exists>e. snd t = Inl e)"
  by (induction tasks) (auto split: prod.splits sum.splits)

lemma c_name_of_tuple: "c_name_of (t_name, c_name, c_type, nullable) = c_name"
  by (simp add: c_name_of_def)

lemma column_loop_keys:
  "distinct (map fst acc @ map c_name_of rows) \<Longrightarrow>
   map fst (column_loop conv rows acc) = map fst acc @ map c_name_of rows"
proof (induction conv rows acc rule: column_loop.induct)
  case (1 conv column_mapping)
  then show ?case by simp
next
  case (2 conv t_name c_name c_type nullable rest column_mapping)
  then show ?case
    by (simp add: c_name_of_tuple update_keys image_iff) 
qed

lemma column_loop_keys_general:
  "distinct (map fst acc) \<Longrightarrow>
   map fst (column_loop conv rows acc) = rev (remdups (rev (map fst acc @ map c_name_of rows)))"
proof (induction conv rows acc rule: column_loop.induct)
  case (1 conv column_mapping)
  then show ?case by (simp add: distinct_remdups_id)
next
  case (2 conv t_name c_name c_type nullable rest column_mapping)
  have d: "distinct (map fst (AList.update c_name (conv c_type nullable) column_mapping))"
    using 2(2) by (simp add: distinct_update)
  show ?case
  proof (cases "c_name \<in> fst ` set column_mapping")
    case True
    then have "remdups (c_name # rev (map fst column_mapping)) = remdups (rev (map fst column_mapping))"
      by simp
    then have "remdups (rev (map c_name_of rest) @ c_name # rev (map fst column_mapping))
       = remdups (rev (map c_name_of rest) @ rev (map fst column_mapping))"
      by (metis remdups_append2)
    then show ?thesis using 2(1) [OF d] True
      by (simp add: c_name_of_tuple update_keys)
  next
    case False
    then show ?thesis using 2(1) [OF d]
      by (simp add: c_name_of_tuple update_keys)
  qed
qed


lemma get_table_stream_Inr:
  assumes "snd (get_table_stream env k c t) = Inr s"
  shows "\<exists>rows. show_columns env (''SHOW COLUMNS '' @ t) = Rows rows \<and>
           name s = t \<and>
           properties (json_schema s) = Some (column_loop (convert_type env) rows [])"
  using assms by (auto simp: get_table_stream_def Let_def split: outcome.splits)

lemma get_streams_Inr:
  assumes "snd (get_streams env config) = Inr ss"
  shows "\<exists>k tables. establish_async_connection env config = Inr k \<and>
           get_firebolt_tables env k = Inr tables \<and>
           length ss = length tables \<and>
           (\<forall>i<length tables. snd (get_table_stream env k i (tables ! i)) = Inr (ss ! i))"
proof -
  from assms obtain k where k: "establish_async_connection env config = Inr k"
    by (auto simp: get_streams_def split: sum.splits)
  with assms obtain tables where t: "get_firebolt_tables env k = Inr tables"
    by (auto simp: get_streams_def split: sum.splits)
  let ?tasks = "map (\<lambda>(i, table). get_table_stream env k i table) (enumerate 0 tables)"
  from assms k t have "snd (gather ?tasks) = Inr ss"
    by (auto simp: get_streams_def split: prod.splits)
  then have m: "map snd ?tasks = map Inr ss"
    by (simp add: gather_Inr_iff)
  then have len: "length ss = length tables"
    by (metis length_enumerate length_map)
  have "snd (get_table_stream env k i (tables ! i)) = Inr (ss ! i)" if "i < length tables" for i
  proof -
    have "snd (get_table_stream env k i (tables ! i)) = map snd ?tasks ! i"
      using that by (simp add: nth_enumerate_eq)
    also have "\<dots> = map Inr ss ! i"
      by (simp only: m)
    also have "\<dots> = Inr (ss ! i)"
      using that len by simp
    finally show ?thesis .
  qed
  with k t len show ?thesis by blast
qed

lemma discover_Inr:
  assumes "snd (discover env config) = Inr cat"
  shows "snd (get_streams env config) = Inr (streams cat)"
  using assms by (auto simp: discover_def split: prod.splits sum.splits)

lemma cursor_opens_append: "cursor_opens (tr @ tr') = cursor_opens tr @ cursor_opens tr'"
  by (induction tr rule: cursor_opens.induct) auto

lemma conn_opens_append: "conn_opens (tr @ tr') = conn_opens tr @ conn_opens tr'"
  by (induction tr rule: conn_opens.induct) auto

lemma get_table_stream_opens:
  "cursor_opens (fst (get_table_stream env k c t)) = [(k, c)]"
  "conn_opens (fst (get_table_stream env k c t)) = []"
  by (auto simp: get_table_stream_def Let_def split: outcome.splits)

lemma tasks_cursor_opens:
  "cursor_opens (concat (map fst (map (\<lambda>(i, table). get_table_stream env k i table)
      (enumerate n tables)))) = map (\<lambda>i. (k, i)) [n..<n + length tables]"
proof (induction tables arbitrary: n)
  case Nil
  show ?case by simp
next
  case (Cons t tables)
  have u: "[n..<n + length (t # tables)] = n # [Suc n..<Suc n + length tables]"
    by (simp add: upt_rec)
  show ?case
    unfolding u using Cons.IH [of "Suc n"]
    by (simp add: cursor_opens_append get_table_stream_opens)
qed

lemma tasks_conn_opens:
  "conn_opens (concat (map fst (map (\<lambda>(i, table). get_table_stream env k i table)
      (enumerate n tables)))) = []"
  by (induction tables arbitrary: n) (simp_all add: conn_opens_append get_table_stream_opens)

lemma example_discover: "snd (discover example_async_env ()) = Inr example_catalog"
  by (simp add: discover_def get_streams_def example_async_env_def enumerate_eq_zip
      get_table_stream_def SUPPORTED_SYNC_MODES_def upt_conv_Cons
          example_catalog_def users_stream_def orders_stream_def)

text \<open>
  C10. When \<open>discover\<close> returns a catalog, the catalog has one stream for each table that
  \<open>get_firebolt_tables\<close> listed, and the streams are in the order of that list: the names
  of the streams, read off in order, are the list of tables.
\<close>

theorem discover_streams_follow_tables:
  assumes "snd (discover env config) = Inr cat"
  shows "\<exists>connection tables.
           establish_async_connection env config = Inr connection \<and>
           get_firebolt_tables env connection = Inr tables \<and>
           map name (streams cat) = tables"
proof -
  from get_streams_Inr [OF discover_Inr [OF assms]]
  obtain k tables where k: "establish_async_connection env config = Inr k"
    and t: "get_firebolt_tables env k = Inr tables"
    and len: "length (streams cat) = length tables"
    and nth: "\<forall>i<length tables. snd (get_table_stream env k i (tables ! i)) = Inr (streams cat ! i)"
    by blast
  have "map name (streams cat) = tables"
  proof (rule nth_equalityI)
    show "length (map name (streams cat)) = length tables" using len by simp
  next
    fix i assume "i < length (map name (streams cat))"
    then have i: "i < length tables" using len by simp
    with nth have "snd (get_table_stream env k i (tables ! i)) = Inr (streams cat ! i)" by blast
    from get_table_stream_Inr [OF this] have "name (streams cat ! i) = tables ! i" by blast
    then show "map name (streams cat) ! i = tables ! i" using i len by simp
  qed
  with k t show ?thesis by blast
qed

theorem discover_streams_follow_tables_witness:
  "snd (discover example_async_env ()) = Inr example_catalog \<and>
   map name (streams example_catalog) = [''users'', ''orders'']"
proof -
  from discover_streams_follow_tables [OF example_discover]
  obtain connection tables
    where "get_firebolt_tables example_async_env connection = Inr tables"
      and "map name (streams example_catalog) = tables"
    by blast
  then have "map name (streams example_catalog) = [''users'', ''orders'']"
    by (simp add: example_async_env_def)
  with example_discover show ?thesis by simp
qed

lemma gather_Inl_task: "snd (gather tasks) = Inl e \<Longrightarrow> \<exists>t\<in>set tasks. snd t = Inl e"
  by (induction tasks) (auto split: prod.splits sum.splits)

lemma get_table_stream_Inl:
  assumes "snd (get_table_stream env k c t) = Inl e"
  shows "show_columns env (''SHOW COLUMNS '' @ t) = ExecuteRaises e \<or>
         show_columns env (''SHOW COLUMNS '' @ t) = FetchallRaises e"
  using assms by (auto simp: get_table_stream_def Let_def split: outcome.splits)

lemma discover_fst: "fst (discover env config) = fst (get_streams env config)"
  by (auto simp: discover_def split: prod.splits sum.splits)

lemma discover_Inl:
  "snd (discover env config) = Inl e \<longleftrightarrow> snd (get_streams env config) = Inl e"
  by (auto simp: discover_def split: prod.splits sum.splits)

lemma get_streams_tasks:
  assumes "establish_async_connection env config = Inr k" "get_firebolt_tables env k = Inr tables"
  shows "get_streams env config =
     (ConnOpen k # fst (gather (map (\<lambda>(i, table). get_table_stream env k i table) (enumerate 0 tables))) @ [ConnClose k],
      snd (gather (map (\<lambda>(i, table). get_table_stream env k i table) (enumerate 0 tables))))"
  using assms by (simp add: get_streams_def split: prod.splits)

text \<open>
  C3. Discovery is all or nothing. When the connection is established and the tables are
  listed, and the column query of one listed table raises (at \<open>execute\<close> or at
  \<open>fetchall\<close>), \<open>discover\<close> raises: it returns no catalog, whatever the other tables
  answered. The exception it raises is one raised by the column query of a listed table.
\<close>

theorem discover_fails_when_a_column_query_fails:
  assumes "establish_async_connection env config = Inr connection"
    and "get_firebolt_tables env connection = Inr tables"
    and "table \<in> set tables"
    and "show_columns env (''SHOW COLUMNS '' @ table) = ExecuteRaises e \<or>
         show_columns env (''SHOW COLUMNS '' @ table) = FetchallRaises e"
  shows "\<exists>e' t. snd (discover env config) = Inl e' \<and> t \<in> set tables \<and>
           (show_columns env (''SHOW COLUMNS '' @ t) = ExecuteRaises e' \<or>
            show_columns env (''SHOW COLUMNS '' @ t) = FetchallRaises e')"
proof -
  let ?tasks = "map (\<lambda>(i, table). get_table_stream env connection i table) (enumerate 0 tables)"
  have gs: "snd (get_streams env config) = snd (gather ?tasks)"
    using get_streams_tasks [OF assms(1,2)] by simp
  have "\<not> (\<exists>ss. snd (get_streams env config) = Inr ss)"
  proof
    assume "\<exists>ss. snd (get_streams env config) = Inr ss"
    then obtain ss where ss: "snd (get_streams env config) = Inr ss" ..
    from get_streams_Inr [OF ss] assms(1,2)
    have nth: "\<forall>i<length tables. snd (get_table_stream env connection i (tables ! i)) = Inr (ss ! i)"
      by auto
    from assms(3) obtain i where i: "i < length tables" "tables ! i = table"
      by (auto simp: in_set_conv_nth)
    with nth have "snd (get_table_stream env connection i table) = Inr (ss ! i)" by auto
    from get_table_stream_Inr [OF this] assms(4) show False by auto
  qed
  then obtain e' where e': "snd (gather ?tasks) = Inl e'"
    using gs by (cases "snd (gather ?tasks)") auto
  from gather_Inl_task [OF e'] obtain i t where
    it: "(i, t) \<in> set (enumerate 0 tables)" "snd (get_table_stream env connection i t) = Inl e'"
    by auto
  from it(1) have "t \<in> set tables" by (auto simp: in_set_enumerate_eq)
  moreover note get_table_stream_Inl [OF it(2)]
  moreover have "snd (discover env config) = Inl e'"
    using e' gs by (simp add: discover_Inl)
  ultimately show ?thesis by blast
qed

text \<open>The store whose \<open>orders\<close> query raises, while \<open>users\<close> answers.\<close>

theorem discover_fails_when_a_column_query_fails_witness:
  "''orders'' \<in> set [''users'', ''orders''] \<and>
   show_columns orders_fails_env (''SHOW COLUMNS '' @ ''orders'') = ExecuteRaises (Exception ''query failed'') \<and>
   (\<exists>e'. snd (discover orders_fails_env ()) = Inl e')"
proof -
  have 1: "establish_async_connection orders_fails_env () = Inr 7"
    by (simp add: orders_fails_env_def example_async_env_def)
  have 2: "get_firebolt_tables orders_fails_env 7 = Inr [''users'', ''orders'']"
    by (simp add: orders_fails_env_def example_async_env_def)
  have 3: "''orders'' \<in> set [''users'', ''orders'']" by simp
  have 4: "show_columns orders_fails_env (''SHOW COLUMNS '' @ ''orders'') = ExecuteRaises (Exception ''query failed'')"
    by (simp add: orders_fails_env_def example_async_env_def)
  from discover_fails_when_a_column_query_fails [OF 1 2 3 disjI1 [OF 4]]
  obtain e' where "snd (discover orders_fails_env ()) = Inl e'" by (elim exE conjE)
  then have "\<exists>e'. snd (discover orders_fails_env ()) = Inl e'" by (rule exI)
  with 3 4 show ?thesis by (intro conjI)
qed

text \<open>
  C9. For every stream of a catalog that \<open>discover\<close> returns, the keys of the schema's
  \<open>properties\<close>, in their order, are the column names of the rows that \<open>SHOW COLUMNS\<close>
  returned for that table, in the order of their first occurrence; when the store returns
  each column name once, the keys are exactly the returned column names in the returned
  order.
\<close>

theorem discover_keeps_column_order:
  assumes "snd (discover env config) = Inr cat" and "s \<in> set (streams cat)"
  shows "\<exists>rows column_mapping.
           show_columns env (''SHOW COLUMNS '' @ name s) = Rows rows \<and>
           properties (json_schema s) = Some column_mapping \<and>
           map fst column_mapping = rev (remdups (rev (map c_name_of rows))) \<and>
           (distinct (map c_name_of rows) \<longrightarrow> map fst column_mapping = map c_name_of rows)"
proof -
  from get_streams_Inr [OF discover_Inr [OF assms(1)]]
  obtain k tables where len: "length (streams cat) = length tables"
    and nth: "\<forall>i<length tables. snd (get_table_stream env k i (tables ! i)) = Inr (streams cat ! i)"
    by blast
  from assms(2) obtain i where i: "i < length (streams cat)" "streams cat ! i = s"
    by (auto simp: in_set_conv_nth)
  with nth len have "snd (get_table_stream env k i (tables ! i)) = Inr s" by auto
  from get_table_stream_Inr [OF this]
  obtain rows where rows: "show_columns env (''SHOW COLUMNS '' @ tables ! i) = Rows rows"
    and n: "name s = tables ! i"
    and p: "properties (json_schema s) = Some (column_loop (convert_type env) rows [])"
    by blast
  have "map fst (column_loop (convert_type env) rows []) = rev (remdups (rev (map c_name_of rows)))"
    using column_loop_keys_general [of "[]" "convert_type env" rows] by simp
  moreover have "distinct (map c_name_of rows) \<longrightarrow>
      map fst (column_loop (convert_type env) rows []) = map c_name_of rows"
    using column_loop_keys [of "[]" rows "convert_type env"] by simp
  ultimately show ?thesis using rows n p by auto
qed

theorem discover_keeps_column_order_witness:
  "snd (discover example_async_env ()) = Inr example_catalog \<and>
   users_stream \<in> set (streams example_catalog) \<and>
   show_columns example_async_env (''SHOW COLUMNS '' @ name users_stream) =
     Rows [(''users'', ''id'', ''integer'', False), (''users'', ''name'', ''string'', True)] \<and>
   distinct (map c_name_of [(''users'', ''id'', ''integer'', False), (''users'', ''name'', ''string'', True)]) \<and>
   (\<exists>column_mapping. properties (json_schema users_stream) = Some column_mapping \<and>
      map fst column_mapping =
        map c_name_of [(''users'', ''id'', ''integer'', False), (''users'', ''name'', ''string'', True)] \<and>
      map fst column_mapping = [''id'', ''name''])"
proof -
  have m: "users_stream \<in> set (streams example_catalog)"
    by (simp add: example_catalog_def)
  have d: "distinct (map c_name_of [(''users'', ''id'', ''integer'', False), (''users'', ''name'', ''string'', True)])"
    by (simp add: c_name_of_def)
  have s: "show_columns example_async_env (''SHOW COLUMNS '' @ name users_stream) =
     Rows [(''users'', ''id'', ''integer'', False), (''users'', ''name'', ''string'', True)]"
    by (simp add: example_async_env_def users_stream_def)
  from discover_keeps_column_order [OF example_discover m]
  obtain rows column_mapping where
    r: "show_columns example_async_env (''SHOW COLUMNS '' @ name users_stream) = Rows rows"
    and p: "properties (json_schema users_stream) = Some column_mapping"
    and o: "distinct (map c_name_of rows) \<longrightarrow> map fst column_mapping = map c_name_of rows"
    by blast
  from r s have "rows = [(''users'', ''id'', ''integer'', False), (''users'', ''name'', ''string'', True)]"
    by simp
  with o d have e: "map fst column_mapping =
      map c_name_of [(''users'', ''id'', ''integer'', False), (''users'', ''name'', ''string'', True)]"
    by simp
  then have "map fst column_mapping = [''id'', ''name'']"
    by (simp add: c_name_of_def)
  with p e have "\<exists>column_mapping. properties (json_schema users_stream) = Some column_mapping \<and>
      map fst column_mapping =
        map c_name_of [(''users'', ''id'', ''integer'', False), (''users'', ''name'', ''string'', True)] \<and>
      map fst column_mapping = [''id'', ''name'']"
    by (intro exI [of _ column_mapping] conjI)
  with example_discover m s d show ?thesis by (intro conjI)
qed

text \<open>
  C4. The claim: a cursor acquired during discovery is closed exactly once however the
  acquiring scope is left. In \<open>get_table_stream\<close> the call \<open>cursor.close()\<close> comes after
  \<open>execute\<close> and \<open>fetchall\<close> with no \<open>try\<close>/\<open>finally\<close> and no \<open>with\<close>: on the store
  whose \<open>orders\<close> query raises, the function opens cursor 1, runs the statement, and
  raises without a single close of that cursor.
\<close>

theorem get_table_stream_leaves_cursor_open:
  "get_table_stream orders_fails_env 7 1 ''orders'' =
     ([CursorOpen 7 1, Execute 1 ''SHOW COLUMNS orders''], Inl (Exception ''query failed'')) \<and>
   count_list (fst (get_table_stream orders_fails_env 7 1 ''orders'')) (CursorClose 1) = 0"
  by (simp add: get_table_stream_def orders_fails_env_def example_async_env_def)

text \<open>
  C5, as the code has it. During a \<open>discover\<close> call that gets as far as the per-table
  tasks, exactly one connection is opened, and every task opens its cursor on that one
  connection; the cursors are not shared: the \<open>i\<close>-th task has cursor \<open>i\<close> of its own.
\<close>

theorem discover_shares_one_connection:
  assumes "establish_async_connection env config = Inr connection"
    and "get_firebolt_tables env connection = Inr tables"
  shows "conn_opens (fst (discover env config)) = [connection] \<and>
         cursor_opens (fst (discover env config)) = map (\<lambda>i. (connection, i)) [0..<length tables]"
  using tasks_cursor_opens [of env connection 0 tables] tasks_conn_opens [of env connection 0 tables]
  by (simp add: discover_fst get_streams_tasks [OF assms] gather_fst
      cursor_opens_append conn_opens_append)

theorem discover_shares_one_connection_witness:
  "conn_opens (fst (discover example_async_env ())) = [7] \<and>
   cursor_opens (fst (discover example_async_env ())) = [(7, 0), (7, 1)]"
proof -
  have 1: "establish_async_connection example_async_env () = Inr 7"
    by (simp add: example_async_env_def)
  have 2: "get_firebolt_tables example_async_env 7 = Inr [''users'', ''orders'']"
    by (simp add: example_async_env_def)
  from discover_shares_one_connection [OF 1 2] show ?thesis
    by (simp add: upt_conv_Cons)
qed

text \<open>
  C5 as stated fails: with the two tables \<open>users\<close> and \<open>orders\<close>, the two tasks run on
  the same session, connection 7.
\<close>

theorem discover_session_per_task_counterexample:
  "map fst (cursor_opens (fst (discover example_async_env ()))) = [7, 7] \<and>
   \<not> distinct (map fst (cursor_opens (fst (discover example_async_env ()))))"
  by (simp add: discover_def get_streams_def example_async_env_def enumerate_eq_zip
      get_table_stream_def upt_conv_Cons)

subsection \<open>Extraction and connection check\<close>

lemmas ex_defs = read_def read_stream_def example_sync_env_def users_selection_def users_c_stream_def example_selection_def
  example_catalog_def users_stream_def orders_stream_def select_query_def dquote_def Let_def

lemma db_events_append: "db_events (tr @ tr') = db_events tr @ db_events tr'"
  by (induction tr rule: db_events.induct) auto

lemma executed_append: "executed (tr @ tr') = executed tr @ executed tr'"
  by (induction tr rule: executed.induct) auto

lemma emit_rows_Cons:
  "emit_rows env columns t (result # rest) =
     (case airbyte_message_from_data env result columns t of
        Inl e \<Rightarrow> (row_events env columns t result, Some e)
      | Inr msg \<Rightarrow> (row_events env columns t result @ fst (emit_rows env columns t rest),
                    snd (emit_rows env columns t rest)))"
  by (cases "emit_rows env columns t rest")
     (simp add: row_events_def split: sum.splits option.splits)

lemma emit_rows_uses_cursor: "list_all (uses_cursor c) (fst (emit_rows env columns t rows))"
  by (induction rows) (auto split: sum.splits prod.splits option.splits)

lemma read_stream_cases:
  obtains (no_properties) "properties (json_schema (stream s)) = None"
      "read_stream env c s = ([], Some (Exception ''properties''))"
  | (raises) table_properties e where "properties (json_schema (stream s)) = Some table_properties"
      "run env (select_query (map fst table_properties) (name (stream s))) = ExecuteRaises e \<or>
       run env (select_query (map fst table_properties) (name (stream s))) = FetchallRaises e"
      "read_stream env c s =
         ([Db (Execute c (select_query (map fst table_properties) (name (stream s))))], Some e)"
  | (rows) table_properties rows where "properties (json_schema (stream s)) = Some table_properties"
      "run env (select_query (map fst table_properties) (name (stream s))) = Rows rows"
      "read_stream env c s =
         (Db (Execute c (select_query (map fst table_properties) (name (stream s)))) #
          Db (Fetchall c (length rows)) #
          fst (emit_rows env (map fst table_properties) (name (stream s)) rows),
          snd (emit_rows env (map fst table_properties) (name (stream s)) rows))"
proof (cases "properties (json_schema (stream s))")
  case None
  then show ?thesis using no_properties by (simp add: read_stream_def)
next
  case (Some table_properties)
  show ?thesis
  proof (cases "run env (select_query (map fst table_properties) (name (stream s)))")
    case (ExecuteRaises e)
    then show ?thesis using Some raises [of table_properties e]
      by (simp add: read_stream_def)
  next
    case (FetchallRaises e)
    then show ?thesis using Some raises [of table_properties e]
      by (simp add: read_stream_def)
  next
    case (Rows rows')
    then show ?thesis using Some rows [of table_properties rows']
      by (simp add: read_stream_def Let_def split: prod.splits)
  qed
qed

lemma read_stream_uses_cursor: "list_all (uses_cursor c) (fst (read_stream env c s))"
proof (cases rule: read_stream_cases [of s env c])
  case no_properties
  then show ?thesis by simp
next
  case (raises table_properties e)
  then show ?thesis by simp
next
  case (rows table_properties rows)
  then show ?thesis by (simp add: emit_rows_uses_cursor)
qed

lemma read_streams_Cons:
  "read_streams env c (s # ss) =
     (case snd (read_stream env c s) of
        Some e \<Rightarrow> read_stream env c s
      | None \<Rightarrow> (fst (read_stream env c s) @ fst (read_streams env c ss),
                 snd (read_streams env c ss)))"
  by (cases "read_stream env c s"; cases "read_streams env c ss") (auto split: option.splits)

lemma read_streams_uses_cursor: "list_all (uses_cursor c) (fst (read_streams env c ss))"
proof (induction ss)
  case Nil
  show ?case by simp
next
  case (Cons s ss)
  then show ?case
    by (cases "snd (read_stream env c s)")
       (simp_all only: read_streams_Cons option.case fst_conv list_all_append read_stream_uses_cursor)
qed

lemma peak_open_uses_cursor:
  "list_all (uses_cursor c) tr \<Longrightarrow> peak_open n (db_events (tr @ rest)) = peak_open n (db_events rest)"
proof (induction tr)
  case Nil
  show ?case by simp
next
  case (Cons ev tr)
  then show ?case
  proof (cases ev)
    case (Db d)
    with Cons show ?thesis by (cases d) auto
  qed auto
qed

lemma emit_rows_db_events: "db_events (fst (emit_rows env columns t rows)) = []"
  by (induction rows) (auto split: sum.splits prod.splits option.splits)

lemma read_stream_executed:
  assumes "q \<in> set (executed (db_events (fst (read_stream env c s))))"
  shows "\<exists>table_properties. properties (json_schema (stream s)) = Some table_properties \<and>
           q = select_query (map fst table_properties) (name (stream s))"
proof (cases rule: read_stream_cases [of s env c])
  case no_properties
  with assms show ?thesis by simp
next
  case (raises table_properties e)
  with assms show ?thesis by simp
next
  case (rows table_properties rows)
  with assms show ?thesis by (simp add: emit_rows_db_events)
qed

lemma read_streams_executed:
  assumes "q \<in> set (executed (db_events (fst (read_streams env c ss))))"
  shows "\<exists>s\<in>set ss. q \<in> set (executed (db_events (fst (read_stream env c s))))"
  using assms
proof (induction ss)
  case Nil
  then show ?case by simp
next
  case (Cons s ss)
  show ?case
  proof (cases "snd (read_stream env c s)")
    case None
    with Cons.prems
    have "q \<in> set (executed (db_events (fst (read_stream env c s)))) \<or>
          q \<in> set (executed (db_events (fst (read_streams env c ss))))"
      by (simp add: read_streams_Cons db_events_append executed_append del: read_streams.simps)
    then show ?thesis using Cons.IH by auto
  next
    case (Some e)
    with Cons.prems show ?thesis by (simp add: read_streams_Cons del: read_streams.simps)
  qed
qed

lemma read_connected:
  assumes "establish_connection env config = Inr connection"
  shows "read env config catalog state =
     (Db (ConnOpen connection) # Db (CursorOpen connection 0) #
        fst (read_streams env 0 (configured_streams catalog)) @
        [Db (CursorClose 0), Db (ConnClose connection)],
      snd (read_streams env 0 (configured_streams catalog)))"
  using assms by (simp add: read_def split: prod.splits)

lemma read_stream_rows:
  assumes "properties (json_schema (stream s)) = Some table_properties"
    and "run env (select_query (map fst table_properties) (name (stream s))) = Rows rows"
  shows "read_stream env c s =
         (Db (Execute c (select_query (map fst table_properties) (name (stream s)))) #
          Db (Fetchall c (length rows)) #
          fst (emit_rows env (map fst table_properties) (name (stream s)) rows),
          snd (emit_rows env (map fst table_properties) (name (stream s)) rows))"
  using assms by (simp add: read_stream_def Let_def split: prod.splits)

lemma emit_rows_all:
  "(\<forall>result\<in>set rows. \<exists>msg. airbyte_message_from_data env result columns t = Inr msg) \<Longrightarrow>
   emit_rows env columns t rows = (concat (map (row_events env columns t) rows), None)"
proof (induction rows)
  case Nil
  show ?case by simp
next
  case (Cons result rest)
  from Cons.prems obtain msg where m: "airbyte_message_from_data env result columns t = Inr msg"
    by auto
  from Cons.prems have "\<forall>result\<in>set rest. \<exists>msg. airbyte_message_from_data env result columns t = Inr msg"
    by simp
  from Cons.IH [OF this] m show ?case
    by (simp add: emit_rows_Cons del: emit_rows.simps)
qed

lemma emit_rows_first_raise:
  "k < length rows \<Longrightarrow>
   (\<forall>i<k. \<exists>msg. airbyte_message_from_data env (rows ! i) columns t = Inr msg) \<Longrightarrow>
   airbyte_message_from_data env (rows ! k) columns t = Inl e \<Longrightarrow>
   emit_rows env columns t rows =
     (concat (map (row_events env columns t) (take (Suc k) rows)), Some e)"
proof (induction rows arbitrary: k)
  case Nil
  then show ?case by simp
next
  case (Cons result rest)
  show ?case
  proof (cases k)
    case 0
    with Cons.prems show ?thesis
      by (simp add: emit_rows_Cons del: emit_rows.simps)
  next
    case (Suc k')
    from Cons.prems(2) Suc obtain msg where m: "airbyte_message_from_data env result columns t = Inr msg"
      by fastforce
    have a: "k' < length rest" using Cons.prems(1) Suc by simp
    have b: "\<forall>i<k'. \<exists>msg. airbyte_message_from_data env (rest ! i) columns t = Inr msg"
    proof (intro allI impI)
      fix i assume "i < k'"
      then have "Suc i < k" using Suc by simp
      with Cons.prems(2) have "\<exists>msg. airbyte_message_from_data env ((result # rest) ! Suc i) columns t = Inr msg"
        by blast
      then show "\<exists>msg. airbyte_message_from_data env (rest ! i) columns t = Inr msg" by simp
    qed
    have c: "airbyte_message_from_data env (rest ! k') columns t = Inl e"
      using Cons.prems(3) Suc by simp
    from Cons.IH [OF a b c] m Suc show ?thesis
      by (simp add: emit_rows_Cons del: emit_rows.simps)
  qed
qed

lemma read_streams_all:
  "(\<forall>s\<in>set ss. snd (read_stream env c s) = None) \<Longrightarrow>
   read_streams env c ss = (concat (map (\<lambda>s. fst (read_stream env c s)) ss), None)"
proof (induction ss)
  case Nil
  show ?case by simp
next
  case (Cons s ss)
  from Cons.prems have n: "snd (read_stream env c s) = None" by simp
  from Cons.prems have "\<forall>s\<in>set ss. snd (read_stream env c s) = None" by simp
  from Cons.IH [OF this] n show ?case
    by (simp add: read_streams_Cons del: read_streams.simps)
qed

lemma read_streams_first_raise:
  "j < length ss \<Longrightarrow>
   (\<forall>i<j. snd (read_stream env c (ss ! i)) = None) \<Longrightarrow>
   snd (read_stream env c (ss ! j)) = Some e \<Longrightarrow>
   read_streams env c ss =
     (concat (map (\<lambda>s. fst (read_stream env c s)) (take (Suc j) ss)), Some e)"
proof (induction ss arbitrary: j)
  case Nil
  then show ?case by simp
next
  case (Cons s ss)
  show ?case
  proof (cases j)
    case 0
    with Cons.prems(3) have "snd (read_stream env c s) = Some e" by simp
    then show ?thesis using 0
      by (cases "read_stream env c s") (simp add: read_streams_Cons del: read_streams.simps)
  next
    case (Suc j')
    from Cons.prems(2) Suc have n: "snd (read_stream env c s) = None" by fastforce
    have a: "j' < length ss" using Cons.prems(1) Suc by simp
    have b: "\<forall>i<j'. snd (read_stream env c (ss ! i)) = None"
    proof (intro allI impI)
      fix i assume "i < j'"
      then have "Suc i < j" using Suc by simp
      with Cons.prems(2) have "snd (read_stream env c ((s # ss) ! Suc i)) = None" by blast
      then show "snd (read_stream env c (ss ! i)) = None" by simp
    qed
    have c: "snd (read_stream env c (ss ! j')) = Some e"
      using Cons.prems(3) Suc by simp
    from Cons.IH [OF a b c] n Suc show ?thesis
      by (simp add: read_streams_Cons del: read_streams.simps)
  qed
qed

lemma read_stream_no_properties:
  "properties (json_schema (stream s)) = None \<Longrightarrow>
   read_stream env c s = ([], Some (Exception ''properties''))"
  by (simp add: read_stream_def)

lemma read_stream_raises:
  assumes "properties (json_schema (stream s)) = Some table_properties"
    and "run env (select_query (map fst table_properties) (name (stream s))) = ExecuteRaises e \<or>
         run env (select_query (map fst table_properties) (name (stream s))) = FetchallRaises e"
  shows "read_stream env c s =
     ([Db (Execute c (select_query (map fst table_properties) (name (stream s))))], Some e)"
  using assms by (auto simp: read_stream_def Let_def)

text \<open>
  C1, as the code has it. A \<open>read\<close> call that connects runs the loop body for the
  selected tables in order, between the opening and the closing of its handles: for all of
  them when no table raises, and up to and including the first table that raises
  otherwise, with that exception as the outcome of the call. The body raises at once when
  the schema has no \<open>properties\<close>, and after the \<open>execute\<close> call when \<open>execute\<close> or
  \<open>fetchall\<close> raises. For a table whose query returns rows, the body calls \<open>execute\<close>,
  then one \<open>fetchall\<close> that hands over the whole result set as a list, and only then,
  for each row of that list in order, the normalizer followed by the yield of its message
  when it returned one: for every row when the normalizer raises on none, and up to and
  including the first row on which it raises otherwise, with that exception as the outcome.
\<close>

theorem read_fetches_each_table_whole:
  assumes "establish_connection env config = Inr connection"
  shows
   "((\<forall>c_stream\<in>set (configured_streams catalog). snd (read_stream env 0 c_stream) = None) \<longrightarrow>
       read env config catalog state =
         (Db (ConnOpen connection) # Db (CursorOpen connection 0) #
          concat (map (\<lambda>c_stream. fst (read_stream env 0 c_stream)) (configured_streams catalog)) @
          [Db (CursorClose 0), Db (ConnClose connection)], None)) \<and>
    (j < length (configured_streams catalog) \<longrightarrow>
     (\<forall>i<j. snd (read_stream env 0 (configured_streams catalog ! i)) = None) \<longrightarrow>
     snd (read_stream env 0 (configured_streams catalog ! j)) = Some e \<longrightarrow>
       read env config catalog state =
         (Db (ConnOpen connection) # Db (CursorOpen connection 0) #
          concat (map (\<lambda>c_stream. fst (read_stream env 0 c_stream))
                      (take (Suc j) (configured_streams catalog))) @
          [Db (CursorClose 0), Db (ConnClose connection)], Some e)) \<and>
    (properties (json_schema (stream c_stream)) = None \<longrightarrow>
       read_stream env cursor c_stream = ([], Some (Exception ''properties''))) \<and>
    (properties (json_schema (stream c_stream)) = Some table_properties \<longrightarrow>
     (run env (select_query (map fst table_properties) (name (stream c_stream))) = ExecuteRaises e' \<or>
      run env (select_query (map fst table_properties) (name (stream c_stream))) = FetchallRaises e') \<longrightarrow>
       read_stream env cursor c_stream =
         ([Db (Execute cursor (select_query (map fst table_properties) (name (stream c_stream))))],
          Some e')) \<and>
    (properties (json_schema (stream c_stream)) = Some table_properties \<longrightarrow>
     run env (select_query (map fst table_properties) (name (stream c_stream))) = Rows rows \<longrightarrow>
     (\<forall>result\<in>set rows. \<exists>msg.
        airbyte_message_from_data env result (map fst table_properties) (name (stream c_stream)) =
          Inr msg) \<longrightarrow>
       read_stream env cursor c_stream =
         (Db (Execute cursor (select_query (map fst table_properties) (name (stream c_stream)))) #
          Db (Fetchall cursor (length rows)) #
          concat (map (row_events env (map fst table_properties) (name (stream c_stream))) rows),
          None)) \<and>
    (properties (json_schema (stream c_stream)) = Some table_properties \<longrightarrow>
     run env (select_query (map fst table_properties) (name (stream c_stream))) = Rows rows \<longrightarrow>
     k < length rows \<longrightarrow>
     (\<forall>i<k. \<exists>msg.
        airbyte_message_from_data env (rows ! i) (map fst table_properties) (name (stream c_stream)) =
          Inr msg) \<longrightarrow>
     airbyte_message_from_data env (rows ! k) (map fst table_properties) (name (stream c_stream)) =
       Inl e'' \<longrightarrow>
       read_stream env cursor c_stream =
         (Db (Execute cursor (select_query (map fst table_properties) (name (stream c_stream)))) #
          Db (Fetchall cursor (length rows)) #
          concat (map (row_events env (map fst table_properties) (name (stream c_stream)))
                      (take (Suc k) rows)),
          Some e''))"
proof (intro conjI impI)
  assume "\<forall>c_stream\<in>set (configured_streams catalog). snd (read_stream env 0 c_stream) = None"
  from read_streams_all [OF this]
  show "read env config catalog state =
         (Db (ConnOpen connection) # Db (CursorOpen connection 0) #
          concat (map (\<lambda>c_stream. fst (read_stream env 0 c_stream)) (configured_streams catalog)) @
          [Db (CursorClose 0), Db (ConnClose connection)], None)"
    by (simp add: read_connected [OF assms])
next
  assume "j < length (configured_streams catalog)"
    and "\<forall>i<j. snd (read_stream env 0 (configured_streams catalog ! i)) = None"
    and "snd (read_stream env 0 (configured_streams catalog ! j)) = Some e"
  from read_streams_first_raise [OF this]
  show "read env config catalog state =
         (Db (ConnOpen connection) # Db (CursorOpen connection 0) #
          concat (map (\<lambda>c_stream. fst (read_stream env 0 c_stream))
                      (take (Suc j) (configured_streams catalog))) @
          [Db (CursorClose 0), Db (ConnClose connection)], Some e)"
    by (simp add: read_connected [OF assms])
next
  assume "properties (json_schema (stream c_stream)) = None"
  then show "read_stream env cursor c_stream = ([], Some (Exception ''properties''))"
    by (rule read_stream_no_properties)
next
  assume "properties (json_schema (stream c_stream)) = Some table_properties"
    and "run env (select_query (map fst table_properties) (name (stream c_stream))) = ExecuteRaises e' \<or>
      run env (select_query (map fst table_properties) (name (stream c_stream))) = FetchallRaises e'"
  then show "read_stream env cursor c_stream =
         ([Db (Execute cursor (select_query (map fst table_properties) (name (stream c_stream))))],
          Some e')"
    by (rule read_stream_raises)
next
  assume p: "properties (json_schema (stream c_stream)) = Some table_properties"
    and r: "run env (select_query (map fst table_properties) (name (stream c_stream))) = Rows rows"
    and a: "\<forall>result\<in>set rows. \<exists>msg.
        airbyte_message_from_data env result (map fst table_properties) (name (stream c_stream)) =
          Inr msg"
  from emit_rows_all [OF a]
  show "read_stream env cursor c_stream =
         (Db (Execute cursor (select_query (map fst table_properties) (name (stream c_stream)))) #
          Db (Fetchall cursor (length rows)) #
          concat (map (row_events env (map fst table_properties) (name (stream c_stream))) rows),
          None)"
    by (simp add: read_stream_rows [OF p r])
next
  assume p: "properties (json_schema (stream c_stream)) = Some table_properties"
    and r: "run env (select_query (map fst table_properties) (name (stream c_stream))) = Rows rows"
    and k: "k < length rows"
    and a: "\<forall>i<k. \<exists>msg.
        airbyte_message_from_data env (rows ! i) (map fst table_properties) (name (stream c_stream)) =
          Inr msg"
    and b: "airbyte_message_from_data env (rows ! k) (map fst table_properties) (name (stream c_stream)) =
       Inl e''"
  from emit_rows_first_raise [OF k a b]
  show "read_stream env cursor c_stream =
         (Db (Execute cursor (select_query (map fst table_properties) (name (stream c_stream)))) #
          Db (Fetchall cursor (length rows)) #
          concat (map (row_events env (map fst table_properties) (name (stream c_stream)))
                      (take (Suc k) rows)),
          Some e'')"
    by (simp add: read_stream_rows [OF p r])
qed

text \<open>
  C2, as the code has it. A \<open>read\<close> call that connects opens one cursor, once, before
  the first table, and closes it once, after the last table is exhausted or an exception
  has ended the loop; everything between is a call on that cursor, a call of the
  normalizer or a yield. So at most one cursor is open at any time, and one is.
\<close>

theorem read_holds_one_cursor:
  assumes "establish_connection env config = Inr connection"
  shows "\<exists>mid. fst (read env config catalog state) =
           Db (ConnOpen connection) # Db (CursorOpen connection 0) # mid @
           [Db (CursorClose 0), Db (ConnClose connection)] \<and>
         list_all (uses_cursor 0) mid \<and>
         peak_open 0 (db_events (fst (read env config catalog state))) = 1"
proof -
  let ?mid = "fst (read_streams env 0 (configured_streams catalog))"
  have u: "list_all (uses_cursor 0) ?mid" by (rule read_streams_uses_cursor)
  have "peak_open 0 (db_events (fst (read env config catalog state))) = 1"
    using peak_open_uses_cursor [OF u, of "Suc 0" "[Db (CursorClose 0), Db (ConnClose connection)]"]
    by (simp add: read_connected [OF assms])
  with u have "fst (read env config catalog state) =
           Db (ConnOpen connection) # Db (CursorOpen connection 0) # ?mid @
           [Db (CursorClose 0), Db (ConnClose connection)] \<and>
         list_all (uses_cursor 0) ?mid \<and>
         peak_open 0 (db_events (fst (read env config catalog state))) = 1"
    by (simp add: read_connected [OF assms])
  then show ?thesis by (rule exI [of _ ?mid])
qed

text \<open>
  C8. Every statement that \<open>read\<close> executes is the projection of a table of the
  selection, of the form \<open>SELECT "c1",...,"cn" FROM table\<close>: each column name of the
  table's properties, in order, wrapped in double quotes, the wrapped names joined by
  commas.
\<close>

theorem read_quotes_every_column:
  assumes "q \<in> set (executed (db_events (fst (read env config catalog state))))"
  shows \<open>\<exists>c_stream\<in>set (configured_streams catalog). \<exists>table_properties.
           properties (json_schema (stream c_stream)) = Some table_properties \<and>
           q = ''SELECT '' @ join '','' (map (\<lambda>col. ''"'' @ col @ ''"'') (map fst table_properties))
                 @ '' FROM '' @ name (stream c_stream)\<close>
proof (cases "establish_connection env config")
  case (Inl e)
  with assms show ?thesis by (simp add: read_def)
next
  case (Inr connection)
  with assms have "q \<in> set (executed (db_events (fst (read_streams env 0 (configured_streams catalog)))))"
    by (simp add: read_connected [OF Inr] db_events_append executed_append)
  from read_streams_executed [OF this] obtain s where s: "s \<in> set (configured_streams catalog)"
    "q \<in> set (executed (db_events (fst (read_stream env 0 s))))"
    by (elim bexE)
  from read_stream_executed [OF s(2)] obtain table_properties where
    "properties (json_schema (stream s)) = Some table_properties"
    "q = select_query (map fst table_properties) (name (stream s))"
    by (elim exE conjE)
  then have \<open>\<exists>table_properties.
           properties (json_schema (stream s)) = Some table_properties \<and>
           q = ''SELECT '' @ join '','' (map (\<lambda>col. ''"'' @ col @ ''"'') (map fst table_properties))
                 @ '' FROM '' @ name (stream s)\<close>
    by (intro exI [of _ table_properties]) (simp add: select_query_def dquote_def)
  with s(1) show ?thesis by (rule bexI [rotated])
qed

text \<open>
  C7. \<open>read\<close> does not consult its \<open>state\<close> argument: for the same store, config and
  selection, any two states give the same events, the same messages in the same order, and
  the same outcome.
\<close>

theorem read_ignores_state:
  "read env config catalog state = read env config catalog state'"
  by (simp add: read_def)

text \<open>
  C6. \<open>check\<close> always returns a status and never raises. When the connection cannot be
  established, or when it can and the validation statement \<open>SELECT 1\<close> raises, the status
  is \<open>FAILED\<close> and the message is \<open>An exception occurred: \<close> followed by the text of
  the exception; when the connection is established and the statement runs, the status is
  \<open>SUCCEEDED\<close>. A \<open>FAILED\<close> status always carries such a message, which is not empty.
\<close>

theorem check_returns_status:
  "(\<exists>result. snd (check env config) = Inr result) \<and>
   (establish_connection env config = Inl e \<longrightarrow>
      snd (check env config) =
        Inr \<lparr>status = FAILED, message = Some (''An exception occurred: '' @ str e)\<rparr>) \<and>
   (establish_connection env config = Inr connection \<longrightarrow> run env ''SELECT 1'' = ExecuteRaises e \<longrightarrow>
      snd (check env config) =
        Inr \<lparr>status = FAILED, message = Some (''An exception occurred: '' @ str e)\<rparr>) \<and>
   (establish_connection env config = Inr connection \<longrightarrow>
      (\<forall>e'. run env ''SELECT 1'' \<noteq> ExecuteRaises e') \<longrightarrow>
      snd (check env config) = Inr \<lparr>status = SUCCEEDED, message = None\<rparr>) \<and>
   (\<forall>result. snd (check env config) = Inr result \<longrightarrow> status result = FAILED \<longrightarrow>
      (\<exists>e' text. message result = Some text \<and> text \<noteq> [] \<and>
         text = ''An exception occurred: '' @ str e'))"
  by (auto simp: check_def check_try_def Let_def split: sum.splits outcome.splits prod.splits)

lemma example_connects: "establish_connection example_sync_env () = Inr 5"
  by (simp add: example_sync_env_def)

lemma normalizer_fails_connects: "establish_connection normalizer_fails_env () = Inr 5"
  by (simp add: normalizer_fails_env_def example_sync_env_def)

lemma select_fails_connects: "establish_connection select_fails_env () = Inr 5"
  by (simp add: select_fails_env_def example_sync_env_def)

lemma users_properties:
  "properties (json_schema (stream users_c_stream)) =
     Some [(''id'', (''integer'', False)), (''name'', (''string'', True))]"
  by (simp add: users_c_stream_def users_stream_def)

lemma users_name: "name (stream users_c_stream) = ''users''"
  by (simp add: users_c_stream_def users_stream_def)

lemma users_query:
  \<open>select_query (map fst [(''id'', (''integer'', False)), (''name'', (''string'', True))])
      (name (stream users_c_stream)) = ''SELECT "id","name" FROM users''\<close>
  by (simp add: select_query_def dquote_def users_name)

lemma users_query_text:
  \<open>select_query [''id'', ''name''] ''users'' = ''SELECT "id","name" FROM users''\<close>
  by (simp add: select_query_def dquote_def)

text \<open>
  The table \<open>users\<close> of the example store, with its two rows: read alone; read with a
  normalizer that raises on the second row; read on a store whose statements raise; and a
  stream without \<open>properties\<close>.
\<close>

theorem read_fetches_each_table_whole_witness:
  \<open>establish_connection example_sync_env () = Inr 5 \<and>
   read_stream example_sync_env 0 users_c_stream =
     ([Db (Execute 0 ''SELECT "id","name" FROM users''), Db (Fetchall 0 2),
       Normalize [''1'', ''a''], Yield (''users'', [(''id'', ''1''), (''name'', ''a'')]),
       Normalize [''2'', ''null''], Yield (''users'', [(''id'', ''2''), (''name'', ''null'')])],
      None) \<and>
   read example_sync_env () users_selection (Map.empty :: string \<rightharpoonup> string) =
     ([Db (ConnOpen 5), Db (CursorOpen 5 0),
       Db (Execute 0 ''SELECT "id","name" FROM users''), Db (Fetchall 0 2),
       Normalize [''1'', ''a''], Yield (''users'', [(''id'', ''1''), (''name'', ''a'')]),
       Normalize [''2'', ''null''], Yield (''users'', [(''id'', ''2''), (''name'', ''null'')]),
       Db (CursorClose 0), Db (ConnClose 5)],
      None) \<and>
   read_stream normalizer_fails_env 0 users_c_stream =
     ([Db (Execute 0 ''SELECT "id","name" FROM users''), Db (Fetchall 0 2),
       Normalize [''1'', ''a''], Yield (''users'', [(''id'', ''1''), (''name'', ''a'')]),
       Normalize [''2'', ''null'']],
      Some (Exception ''unexpected value'')) \<and>
   read normalizer_fails_env () example_selection (Map.empty :: string \<rightharpoonup> string) =
     ([Db (ConnOpen 5), Db (CursorOpen 5 0),
       Db (Execute 0 ''SELECT "id","name" FROM users''), Db (Fetchall 0 2),
       Normalize [''1'', ''a''], Yield (''users'', [(''id'', ''1''), (''name'', ''a'')]),
       Normalize [''2'', ''null''],
       Db (CursorClose 0), Db (ConnClose 5)],
      Some (Exception ''unexpected value'')) \<and>
   read_stream select_fails_env 0 users_c_stream =
     ([Db (Execute 0 ''SELECT "id","name" FROM users'')], Some (Exception ''engine is stopped'')) \<and>
   read_stream example_sync_env 0 no_properties_c_stream = ([], Some (Exception ''properties''))\<close>
proof -
  let ?tp = "[(''id'', (''integer'', False)), (''name'', (''string'', True))]"
  let ?rows = "[[''1'', ''a''], [''2'', ''null'' :: string]]"
  let ?st = "Map.empty :: string \<rightharpoonup> string"
  note p = users_properties
  have r: "run example_sync_env (select_query (map fst ?tp) (name (stream users_c_stream))) = Rows ?rows"
    unfolding users_query by (simp add: example_sync_env_def)
  have rn: "run normalizer_fails_env (select_query (map fst ?tp) (name (stream users_c_stream))) = Rows ?rows"
    unfolding users_query by (simp add: normalizer_fails_env_def example_sync_env_def)
  have rs: "run select_fails_env (select_query (map fst ?tp) (name (stream users_c_stream))) =
      ExecuteRaises (Exception ''engine is stopped'')"
    by (simp add: select_fails_env_def example_sync_env_def)
  have a: "\<forall>result\<in>set ?rows. \<exists>msg.
      airbyte_message_from_data example_sync_env result (map fst ?tp) (name (stream users_c_stream)) = Inr msg"
    by (simp add: example_sync_env_def)
  have an: "\<forall>i<1. \<exists>msg.
      airbyte_message_from_data normalizer_fails_env (?rows ! i) (map fst ?tp)
        (name (stream users_c_stream)) = Inr msg"
    by (simp add: normalizer_fails_env_def example_sync_env_def)
  have bn: "airbyte_message_from_data normalizer_fails_env (?rows ! 1) (map fst ?tp)
        (name (stream users_c_stream)) = Inl (Exception ''unexpected value'')"
    by (simp add: normalizer_fails_env_def example_sync_env_def)
  have k: "(1::nat) < length ?rows" by simp
  note T1 = read_fetches_each_table_whole [where env = example_sync_env and config = "()"
      and connection = 5 and catalog = users_selection and state = ?st
      and c_stream = users_c_stream and table_properties = ?tp and rows = ?rows and cursor = 0,
      OF example_connects]
  have i2: \<open>read_stream example_sync_env 0 users_c_stream =
     ([Db (Execute 0 ''SELECT "id","name" FROM users''), Db (Fetchall 0 2),
       Normalize [''1'', ''a''], Yield (''users'', [(''id'', ''1''), (''name'', ''a'')]),
       Normalize [''2'', ''null''], Yield (''users'', [(''id'', ''2''), (''name'', ''null'')])],
      None)\<close>
    using T1 [THEN conjunct2, THEN conjunct2, THEN conjunct2, THEN conjunct2, THEN conjunct1,
        THEN mp, OF p, THEN mp, OF r, THEN mp, OF a]
    by (simp add: users_name users_query_text row_events_def example_sync_env_def)
  have h3: "\<forall>c_stream\<in>set (configured_streams users_selection).
      snd (read_stream example_sync_env 0 c_stream) = None"
    by (simp add: users_selection_def i2)
  have i3: \<open>read example_sync_env () users_selection ?st =
     ([Db (ConnOpen 5), Db (CursorOpen 5 0),
       Db (Execute 0 ''SELECT "id","name" FROM users''), Db (Fetchall 0 2),
       Normalize [''1'', ''a''], Yield (''users'', [(''id'', ''1''), (''name'', ''a'')]),
       Normalize [''2'', ''null''], Yield (''users'', [(''id'', ''2''), (''name'', ''null'')]),
       Db (CursorClose 0), Db (ConnClose 5)],
      None)\<close>
    using T1 [THEN conjunct1, THEN mp, OF h3]
    by (simp add: users_selection_def i2)
  note T2 = read_fetches_each_table_whole [where env = normalizer_fails_env and config = "()"
      and connection = 5 and catalog = example_selection and state = ?st
      and c_stream = users_c_stream and table_properties = ?tp and rows = ?rows and cursor = 0
      and k = 1 and j = 0 and e = "Exception ''unexpected value''"
      and e'' = "Exception ''unexpected value''",
      OF normalizer_fails_connects]
  have i4: \<open>read_stream normalizer_fails_env 0 users_c_stream =
     ([Db (Execute 0 ''SELECT "id","name" FROM users''), Db (Fetchall 0 2),
       Normalize [''1'', ''a''], Yield (''users'', [(''id'', ''1''), (''name'', ''a'')]),
       Normalize [''2'', ''null'']],
      Some (Exception ''unexpected value''))\<close>
    using T2 [THEN conjunct2, THEN conjunct2, THEN conjunct2, THEN conjunct2, THEN conjunct2,
        THEN mp, OF p, THEN mp, OF rn, THEN mp, OF k, THEN mp, OF an, THEN mp, OF bn]
    by (simp add: users_name users_query_text row_events_def normalizer_fails_env_def example_sync_env_def)
  have first: "configured_streams example_selection ! 0 = users_c_stream"
    by (simp add: example_selection_def example_catalog_def users_c_stream_def)
  have j: "0 < length (configured_streams example_selection)"
    by (simp add: example_selection_def example_catalog_def)
  have h5a: "\<forall>i<0. snd (read_stream normalizer_fails_env 0 (configured_streams example_selection ! i)) = None"
    by simp
  have h5b: "snd (read_stream normalizer_fails_env 0 (configured_streams example_selection ! 0)) =
      Some (Exception ''unexpected value'')"
    by (simp add: first i4)
  have i5: \<open>read normalizer_fails_env () example_selection ?st =
     ([Db (ConnOpen 5), Db (CursorOpen 5 0),
       Db (Execute 0 ''SELECT "id","name" FROM users''), Db (Fetchall 0 2),
       Normalize [''1'', ''a''], Yield (''users'', [(''id'', ''1''), (''name'', ''a'')]),
       Normalize [''2'', ''null''],
       Db (CursorClose 0), Db (ConnClose 5)],
      Some (Exception ''unexpected value''))\<close>
    using T2 [THEN conjunct2, THEN conjunct1, THEN mp, OF j, THEN mp, OF h5a, THEN mp, OF h5b]
    by (simp add: take_Suc_conv_app_nth [OF j] first i4)
  note T3 = read_fetches_each_table_whole [where env = select_fails_env and config = "()"
      and connection = 5 and c_stream = users_c_stream and table_properties = ?tp and cursor = 0
      and e' = "Exception ''engine is stopped''", OF select_fails_connects]
  have i6: \<open>read_stream select_fails_env 0 users_c_stream =
     ([Db (Execute 0 ''SELECT "id","name" FROM users'')], Some (Exception ''engine is stopped''))\<close>
    using T3 [THEN conjunct2, THEN conjunct2, THEN conjunct2, THEN conjunct1,
        THEN mp, OF p, THEN mp, OF disjI1 [OF rs]]
    unfolding users_query .
  note T4 = read_fetches_each_table_whole [where env = example_sync_env and config = "()"
      and connection = 5 and c_stream = no_properties_c_stream and cursor = 0,
      OF example_connects]
  have np: "properties (json_schema (stream no_properties_c_stream)) = None"
    by (simp add: no_properties_c_stream_def)
  have i7: "read_stream example_sync_env 0 no_properties_c_stream = ([], Some (Exception ''properties''))"
    using T4 [THEN conjunct2, THEN conjunct2, THEN conjunct1, THEN mp, OF np] .
  from example_connects i2 i3 i4 i5 i6 i7 show ?thesis by (intro conjI)
qed

text \<open>
  C1 as stated fails: reading \<open>users\<close>, both rows have been fetched when the first
  message is yielded, so the second row is not fetched after the first message is
  emitted, and the table's whole result set is held in a list.
\<close>

theorem read_streaming_counterexample:
  \<open>fst (read example_sync_env () users_selection (Map.empty :: string \<rightharpoonup> string)) =
     [Db (ConnOpen 5), Db (CursorOpen 5 0), Db (Execute 0 ''SELECT "id","name" FROM users''),
      Db (Fetchall 0 2),
      Normalize [''1'', ''a''], Yield (''users'', [(''id'', ''1''), (''name'', ''a'')]),
      Normalize [''2'', ''null''], Yield (''users'', [(''id'', ''2''), (''name'', ''null'')]),
      Db (CursorClose 0), Db (ConnClose 5)] \<and>
   \<not> fetched_before_first_yield
        (fst (read example_sync_env () users_selection (Map.empty :: string \<rightharpoonup> string))) \<le> 1\<close>
  by (simp add: ex_defs)

text \<open>The example store and the selection of both tables.\<close>

theorem read_holds_one_cursor_witness:
  "establish_connection example_sync_env () = Inr 5 \<and>
   (\<exists>mid. fst (read example_sync_env () example_selection (Map.empty :: string \<rightharpoonup> string)) =
           Db (ConnOpen 5) # Db (CursorOpen 5 0) # mid @ [Db (CursorClose 0), Db (ConnClose 5)] \<and>
         list_all (uses_cursor 0) mid \<and>
         peak_open 0 (db_events (fst (read example_sync_env () example_selection
            (Map.empty :: string \<rightharpoonup> string)))) = 1)"
  using example_connects read_holds_one_cursor [OF example_connects]
  by (rule conjI)

text \<open>
  C2 as stated fails: for the selection of two tables one cursor is opened, not one for
  each table, and there is no close between the statement of \<open>users\<close> and the statement
  of \<open>orders\<close>.
\<close>

theorem read_cursor_per_table_counterexample:
  \<open>length (configured_streams example_selection) = 2 \<and>
   db_events (fst (read example_sync_env () example_selection (Map.empty :: string \<rightharpoonup> string))) =
     [ConnOpen 5, CursorOpen 5 0,
      Execute 0 ''SELECT "id","name" FROM users'', Fetchall 0 2,
      Execute 0 ''SELECT "id" FROM orders'', Fetchall 0 1,
      CursorClose 0, ConnClose 5] \<and>
   \<not> length (cursor_opens (db_events
        (fst (read example_sync_env () example_selection (Map.empty :: string \<rightharpoonup> string))))) =
      length (configured_streams example_selection)\<close>
  by (simp add: ex_defs)

text \<open>The statement built for \<open>users\<close>.\<close>

theorem read_quotes_every_column_witness:
  \<open>''SELECT "id","name" FROM users'' \<in> set (executed (db_events
       (fst (read example_sync_env () users_selection (Map.empty :: string \<rightharpoonup> string))))) \<and>
   (\<exists>c_stream\<in>set (configured_streams users_selection). \<exists>table_properties.
       properties (json_schema (stream c_stream)) = Some table_properties \<and>
       ''SELECT "id","name" FROM users'' =
         ''SELECT '' @ join '','' (map (\<lambda>col. ''"'' @ col @ ''"'') (map fst table_properties))
           @ '' FROM '' @ name (stream c_stream))\<close>
proof -
  have m: \<open>''SELECT "id","name" FROM users'' \<in> set (executed (db_events
       (fst (read example_sync_env () users_selection (Map.empty :: string \<rightharpoonup> string)))))\<close>
    by (simp add: ex_defs)
  from m read_quotes_every_column [OF m] show ?thesis by (rule conjI)
qed

text \<open>An empty state and a state with an entry.\<close>

theorem read_ignores_state_witness:
  "read example_sync_env () users_selection (Map.empty :: string \<rightharpoonup> string) =
   read example_sync_env () users_selection [''users'' \<mapsto> ''2'']"
  by (rule read_ignores_state)

text \<open>Refused credentials, a stopped engine, and the example store.\<close>

theorem check_returns_status_witness:
  "establish_connection bad_credentials_env () = Inl (Exception ''invalid credentials'') \<and>
   snd (check bad_credentials_env ()) =
     Inr \<lparr>status = FAILED, message = Some ''An exception occurred: invalid credentials''\<rparr> \<and>
   establish_connection select_fails_env () = Inr 5 \<and>
   run select_fails_env ''SELECT 1'' = ExecuteRaises (Exception ''engine is stopped'') \<and>
   snd (check select_fails_env ()) =
     Inr \<lparr>status = FAILED, message = Some ''An exception occurred: engine is stopped''\<rparr> \<and>
   establish_connection example_sync_env () = Inr 5 \<and>
   (\<forall>e'. run example_sync_env ''SELECT 1'' \<noteq> ExecuteRaises e') \<and>
   snd (check example_sync_env ()) = Inr \<lparr>status = SUCCEEDED, message = None\<rparr>"
proof -
  have b: "establish_connection bad_credentials_env () = Inl (Exception ''invalid credentials'')"
    by (simp add: bad_credentials_env_def example_sync_env_def)
  have s1: "establish_connection select_fails_env () = Inr 5"
    by (simp add: select_fails_env_def example_sync_env_def)
  have s2: "run select_fails_env ''SELECT 1'' = ExecuteRaises (Exception ''engine is stopped'')"
    by (simp add: select_fails_env_def example_sync_env_def)
  have x: "\<forall>e'. run example_sync_env ''SELECT 1'' \<noteq> ExecuteRaises e'"
    by (simp add: example_sync_env_def)
  note cb = check_returns_status [where env = bad_credentials_env and config = "()"
      and e = "Exception ''invalid credentials''" and connection = 5]
  note cs = check_returns_status [where env = select_fails_env and config = "()"
      and e = "Exception ''engine is stopped''" and connection = 5]
  note cx = check_returns_status [where env = example_sync_env and config = "()"
      and e = "Exception ''engine is stopped''" and connection = 5]
  have 1: "snd (check bad_credentials_env ()) =
     Inr \<lparr>status = FAILED, message = Some ''An exception occurred: invalid credentials''\<rparr>"
    using cb [THEN conjunct2, THEN conjunct1, THEN mp, OF b] by simp
  have 2: "snd (check select_fails_env ()) =
     Inr \<lparr>status = FAILED, message = Some ''An exception occurred: engine is stopped''\<rparr>"
    using cs [THEN conjunct2, THEN conjunct2, THEN conjunct1, THEN mp, OF s1, THEN mp, OF s2] by simp
  have 3: "snd (check example_sync_env ()) = Inr \<lparr>status = SUCCEEDED, message = None\<rparr>"
    using cx [THEN conjunct2, THEN conjunct2, THEN conjunct2, THEN conjunct1, THEN mp,
        OF example_connects, THEN mp, OF x] .
  from b 1 s1 s2 2 example_connects x 3 show ?thesis by (intro conjI)
qed

end
